theory Spec2Isabelle
  imports Main "HOL-Library.Sublist"
begin

section \<open>Integration configuration of the logs agent\<close>

text \<open>
  A shallow embedding of \<^verbatim>\<open>pkg/config/integration_config.go\<close>. Go strings and byte
  slices are byte lists (\<^typ>\<open>string\<close>); a nil slice and an empty one are both \<open>[]\<close>.
  A Go \<^verbatim>\<open>error\<close> is represented by its message. A function returning
  \<^verbatim>\<open>error\<close> yields \<^typ>\<open>string option\<close> (\<open>None\<close> is \<^verbatim>\<open>nil\<close>); a function
  returning \<^verbatim>\<open>(value, error)\<close> yields a \<open>res\<close>, which also has a branch for a
  run-time panic, so that returning an error and crashing are different outcomes.
\<close>

subsection \<open>Constants\<close>

type_synonym error = string

datatype 'a res = Ok 'a | Err error | Panic

definition LOGS_RULES :: string where
  "LOGS_RULES = ''LogsRules''"

definition TCP_TYPE :: string where
  "TCP_TYPE = ''tcp''"

definition UDP_TYPE :: string where
  "UDP_TYPE = ''udp''"

definition FILE_TYPE :: string where
  "FILE_TYPE = ''file''"

definition EXCLUDE_AT_MATCH :: string where
  "EXCLUDE_AT_MATCH = ''exclude_at_match''"

definition MASK_SEQUENCES :: string where
  "MASK_SEQUENCES = ''mask_sequences''"

subsection \<open>Data model\<close>

text \<open>
  \<open>Reg\<close> is a pointer to a compiled regular expression: \<open>None\<close> is the nil pointer.
  The type \<open>'re\<close> of compiled expressions belongs to Go's \<^verbatim>\<open>regexp\<close> package and is
  left abstract.
\<close>

record 're LogsProcessingRule =
  Type :: string
  Name :: string
  ReplacePlaceholder :: string
  Pattern :: string
  Reg :: "'re option"
  ReplacePlaceholderBytes :: string

text \<open>
  \<open>Port\<close> is a Go \<^verbatim>\<open>int\<close>. The code only compares it with 0, so its width plays
  no role and it is modelled as \<^typ>\<open>int\<close>.
\<close>

record 're IntegrationConfigLogSource =
  Type :: string
  Port :: int
  Path :: string
  Service :: string
  Logset :: string
  Source :: string
  SourceCategory :: string
  Tags :: string
  TagsPayload :: string
  ProcessingRules :: "'re LogsProcessingRule list"

record 're IntegrationConfig =
  Logs :: "'re IntegrationConfigLogSource list"

text \<open>
  The settings store (a \<^verbatim>\<open>viper.Viper\<close>), restricted to what this file uses: a map
  from keys to lists of log sources, written by \<^verbatim>\<open>Set\<close> and read by \<^verbatim>\<open>Get\<close>.
  The file uses the single key \<open>LOGS_RULES\<close>, so the case folding of keys plays no role.
\<close>

type_synonym 're viper = "string \<rightharpoonup> 're IntegrationConfigLogSource list"

text \<open>
  What the code calls outside this file, taken as parameters:
  \<^item> \<open>ReadDir\<close>: \<^verbatim>\<open>ioutil.ReadDir\<close>, the names of the entries of a directory in
    listing order, or an error (the returned list is then nil);
  \<^item> \<open>ReadInConfig\<close>: \<^verbatim>\<open>viper.ReadInConfig\<close> on a config path and a config name;
  \<^item> \<open>Unmarshal\<close>: \<^verbatim>\<open>viper.Unmarshal\<close> into an \<open>IntegrationConfig\<close>;
  \<^item> \<open>Compile\<close>: \<^verbatim>\<open>regexp.Compile\<close>, \<open>None\<close> when the pattern is not a valid
    regular expression;
  \<^item> \<open>DeprecatedConfig\<close>: a constant of the package declared in another file.
\<close>

record ('raw, 're) env =
  ReadDir :: "string \<Rightarrow> error + string list"
  ReadInConfig :: "string \<Rightarrow> string \<Rightarrow> error + 'raw"
  Unmarshal :: "'raw \<Rightarrow> error + 're IntegrationConfig"
  Compile :: "string \<Rightarrow> 're option"
  DeprecatedConfig :: string

subsection \<open>buildTagsPayload\<close>

definition buildTagsPayload :: "string \<Rightarrow> string \<Rightarrow> string \<Rightarrow> string" where
  "buildTagsPayload configTags source sourceCategory =
     (let tagsPayload = [];
          tagsPayload =
            (if source \<noteq> [] then ((tagsPayload @ ''[dd ddsource=\"'') @ source) @ ''\"]''
             else tagsPayload);
          tagsPayload =
            (if sourceCategory \<noteq> []
             then ((tagsPayload @ ''[dd ddsourcecategory=\"'') @ sourceCategory) @ ''\"]''
             else tagsPayload);
          tagsPayload =
            (if configTags \<noteq> [] then ((tagsPayload @ ''[dd ddtags=\"'') @ configTags) @ ''\"]''
             else tagsPayload)
      in if length tagsPayload = 0 then [CHR ''-''] else tagsPayload)"

subsection \<open>validateSource\<close>

definition validateSource :: "'re IntegrationConfigLogSource \<Rightarrow> error option" where
  "validateSource config =
     (if \<not> (Type config = FILE_TYPE \<or> Type config = TCP_TYPE \<or> Type config = UDP_TYPE)
      then Some (''A source must have a valid type (got '' @ Type config @ '')'')
      else if Type config = FILE_TYPE \<and> Path config = []
      then Some ''A file source must have a path''
      else if Type config = TCP_TYPE \<and> Port config = 0
      then Some ''A tcp source must have a port''
      else if Type config = UDP_TYPE \<and> Port config = 0
      then Some ''A udp source must have a port''
      else None)"

subsection \<open>validateProcessingRules\<close>

text \<open>\<^verbatim>\<open>regexp.MustCompile\<close> is \<^verbatim>\<open>regexp.Compile\<close> that panics on an error.\<close>

definition MustCompile :: "(string \<Rightarrow> 're option) \<Rightarrow> string \<Rightarrow> 're res" where
  "MustCompile compile str = (case compile str of None \<Rightarrow> Panic | Some re \<Rightarrow> Ok re)"

definition name_error :: error where
  "name_error = ''LogsAgent misconfigured: all log processing rules need a name''"

definition type_unset_error :: "string \<Rightarrow> error" where
  "type_unset_error name =
     ''LogsAgent misconfigured: type must be set for log processing rule `'' @ name @ ''`''"

definition type_unsupported_error :: "string \<Rightarrow> string \<Rightarrow> error" where
  "type_unsupported_error ty name =
     ''LogsAgent misconfigured: type '' @ ty @ '' is unsupported for log processing rule `''
       @ name @ ''`''"

text \<open>
  The loop \<^verbatim>\<open>for i, rule := range rules\<close> from index \<open>i\<close> on: \<open>rule\<close> is the copy of
  \<open>rules ! i\<close> taken when the iteration starts, and the assignments to \<^verbatim>\<open>rules[i]\<close>
  update the slice in place.
\<close>

function validateProcessingRules_from ::
  "(string \<Rightarrow> 're option) \<Rightarrow> nat \<Rightarrow> 're LogsProcessingRule list \<Rightarrow> 're LogsProcessingRule list res"
where
  "validateProcessingRules_from compile i rules =
     (if i < length rules then
        (let rule = rules ! i in
         if Name rule = [] then Err name_error
         else if LogsProcessingRule.Type rule = EXCLUDE_AT_MATCH then
           (case MustCompile compile (Pattern rule) of
              Panic \<Rightarrow> Panic
            | Err e \<Rightarrow> Err e
            | Ok re \<Rightarrow>
                validateProcessingRules_from compile (Suc i)
                  (rules[i := (rules ! i)\<lparr>Reg := Some re\<rparr>]))
         else if LogsProcessingRule.Type rule = MASK_SEQUENCES then
           (case MustCompile compile (Pattern rule) of
              Panic \<Rightarrow> Panic
            | Err e \<Rightarrow> Err e
            | Ok re \<Rightarrow>
                validateProcessingRules_from compile (Suc i)
                  (rules[i := (rules ! i)\<lparr>Reg := Some re,
                     ReplacePlaceholderBytes := ReplacePlaceholder rule\<rparr>]))
         else if LogsProcessingRule.Type rule = [] then Err (type_unset_error (Name rule))
         else Err (type_unsupported_error (LogsProcessingRule.Type rule) (Name rule)))
      else Ok rules)"
  by pat_completeness auto
termination
  by (relation "measure (\<lambda>(compile, i, rules). length rules - i)") auto

definition validateProcessingRules ::
  "(string \<Rightarrow> 're option) \<Rightarrow> 're LogsProcessingRule list \<Rightarrow> 're LogsProcessingRule list res"
where
  "validateProcessingRules compile rules = validateProcessingRules_from compile 0 rules"

subsection \<open>availableIntegrationConfigs\<close>

text \<open>
  \<^verbatim>\<open>filepath.Ext\<close> scans the path from its last byte down to the first and stops at a
  path separator (\<^verbatim>\<open>/\<close>, as on Unix); \<open>Ext_from n path\<close> is the loop with \<open>n\<close> bytes
  left to scan, that is at index \<open>n - 1\<close>. It returns the suffix that starts at the last
  dot, or the empty string when there is none.
\<close>

fun Ext_from :: "nat \<Rightarrow> string \<Rightarrow> string" where
  "Ext_from 0 path = []"
| "Ext_from (Suc i) path =
     (if path ! i = CHR ''/'' then []
      else if path ! i = CHR ''.'' then drop i path
      else Ext_from i path)"

definition Ext :: "string \<Rightarrow> string" where
  "Ext path = Ext_from (length path) path"

fun availableIntegrationConfigs_loop :: "string \<Rightarrow> string list \<Rightarrow> string list \<Rightarrow> string list" where
  "availableIntegrationConfigs_loop deprecated integrationConfigFiles [] = integrationConfigFiles"
| "availableIntegrationConfigs_loop deprecated integrationConfigFiles (f # files) =
     (let filename = f;
          extension = Ext filename;
          name = take (length filename - length extension) filename
      in if extension = ''.yaml'' \<and> name \<noteq> deprecated
         then availableIntegrationConfigs_loop deprecated (integrationConfigFiles @ [name]) files
         else availableIntegrationConfigs_loop deprecated integrationConfigFiles files)"

text \<open>The error of \<^verbatim>\<open>ioutil.ReadDir\<close> is dropped; the list it returns is then nil.\<close>

definition availableIntegrationConfigs :: "('raw, 're) env \<Rightarrow> string \<Rightarrow> string list" where
  "availableIntegrationConfigs env ddconfdPath =
     (let files = (case ReadDir env ddconfdPath of Inl err \<Rightarrow> [] | Inr files \<Rightarrow> files)
      in availableIntegrationConfigs_loop (DeprecatedConfig env) [] files)"

subsection \<open>buildLogsAgentIntegrationsConfig\<close>

text \<open>
  The body of the inner loop for one log source: validation, then the processing rules,
  then the tags payload. The result is the source a pointer to which is appended to
  \<open>logsSourceConfigs\<close>.
\<close>

definition loadSource ::
  "(string \<Rightarrow> 're option) \<Rightarrow> 're IntegrationConfigLogSource \<Rightarrow>
   're IntegrationConfigLogSource res"
where
  "loadSource compile logSourceConfig =
     (case validateSource logSourceConfig of
        Some err \<Rightarrow> Err err
      | None \<Rightarrow>
          (case validateProcessingRules compile (ProcessingRules logSourceConfig) of
             Panic \<Rightarrow> Panic
           | Err err \<Rightarrow> Err err
           | Ok rules \<Rightarrow>
               Ok (logSourceConfig\<lparr>
                     ProcessingRules := rules,
                     TagsPayload := buildTagsPayload (Tags logSourceConfig)
                       (Source logSourceConfig) (SourceCategory logSourceConfig)\<rparr>)))"

text \<open>The inner loop over the log sources of one file, appending to \<open>logsSourceConfigs\<close>.\<close>

fun loadSources ::
  "(string \<Rightarrow> 're option) \<Rightarrow> 're IntegrationConfigLogSource list \<Rightarrow>
   're IntegrationConfigLogSource list \<Rightarrow> 're IntegrationConfigLogSource list res"
where
  "loadSources compile logsSourceConfigs [] = Ok logsSourceConfigs"
| "loadSources compile logsSourceConfigs (logSourceConfigIterator # rest) =
     (case loadSource compile logSourceConfigIterator of
        Panic \<Rightarrow> Panic
      | Err err \<Rightarrow> Err err
      | Ok logSourceConfig \<Rightarrow>
          loadSources compile (logsSourceConfigs @ [logSourceConfig]) rest)"

text \<open>
  Reading one config file: \<^verbatim>\<open>ReadInConfig\<close>, then \<^verbatim>\<open>Unmarshal\<close>, each returning
  its error to the caller.
\<close>

definition readIntegrationConfig ::
  "('raw, 're) env \<Rightarrow> string \<Rightarrow> string \<Rightarrow> error + 're IntegrationConfig"
where
  "readIntegrationConfig env ddconfdPath file =
     (case ReadInConfig env ddconfdPath file of
        Inl err \<Rightarrow> Inl err
      | Inr raw \<Rightarrow> Unmarshal env raw)"

text \<open>The body of the outer loop for one config name.\<close>

definition loadFile ::
  "('raw, 're) env \<Rightarrow> string \<Rightarrow> 're IntegrationConfigLogSource list \<Rightarrow> string \<Rightarrow>
   're IntegrationConfigLogSource list res"
where
  "loadFile env ddconfdPath logsSourceConfigs file =
     (case readIntegrationConfig env ddconfdPath file of
        Inl err \<Rightarrow> Err err
      | Inr integrationConfig \<Rightarrow>
          loadSources (Compile env) logsSourceConfigs (Logs integrationConfig))"

text \<open>The outer loop over the discovered config names.\<close>

fun loadFiles ::
  "('raw, 're) env \<Rightarrow> string \<Rightarrow> 're IntegrationConfigLogSource list \<Rightarrow> string list \<Rightarrow>
   're IntegrationConfigLogSource list res"
where
  "loadFiles env ddconfdPath logsSourceConfigs [] = Ok logsSourceConfigs"
| "loadFiles env ddconfdPath logsSourceConfigs (file # rest) =
     (case loadFile env ddconfdPath logsSourceConfigs file of
        Panic \<Rightarrow> Panic
      | Err err \<Rightarrow> Err err
      | Ok logsSourceConfigs' \<Rightarrow> loadFiles env ddconfdPath logsSourceConfigs' rest)"

text \<open>
  The result is the returned error (\<open>Ok ()\<close> for nil) and the settings store afterwards.
  \<^verbatim>\<open>config.Set\<close> is reached only when both loops have run to their end.
\<close>

definition buildLogsAgentIntegrationsConfig ::
  "('raw, 're) env \<Rightarrow> 're viper \<Rightarrow> string \<Rightarrow> unit res \<times> 're viper"
where
  "buildLogsAgentIntegrationsConfig env config ddconfdPath =
     (let integrationConfigYamlFiles = availableIntegrationConfigs env ddconfdPath
      in case loadFiles env ddconfdPath [] integrationConfigYamlFiles of
           Panic \<Rightarrow> (Panic, config)
         | Err err \<Rightarrow> (Err err, config)
         | Ok logsSourceConfigs \<Rightarrow> (Ok (), config(LOGS_RULES \<mapsto> logsSourceConfigs)))"

subsection \<open>Valid rules and concrete inputs\<close>

text \<open>
  A rule that the loop of \<open>validateProcessingRules\<close> passes: it has a name, one of the two
  supported types, and a pattern that compiles.
\<close>

definition rule_ok :: "(string \<Rightarrow> 're option) \<Rightarrow> 're LogsProcessingRule \<Rightarrow> bool" where
  "rule_ok compile rule \<longleftrightarrow>
     Name rule \<noteq> [] \<and>
     (LogsProcessingRule.Type rule = EXCLUDE_AT_MATCH \<or>
      LogsProcessingRule.Type rule = MASK_SEQUENCES) \<and>
     compile (Pattern rule) \<noteq> None"

text \<open>
  What one iteration of the rule loop leaves of a rule \<open>r\<close> in the updated rule \<open>r'\<close>.
\<close>

definition unchanged_fields :: "'re LogsProcessingRule \<Rightarrow> 're LogsProcessingRule \<Rightarrow> bool" where
  "unchanged_fields r r' \<longleftrightarrow>
     LogsProcessingRule.Type r' = LogsProcessingRule.Type r \<and> Name r' = Name r \<and>
     Pattern r' = Pattern r \<and> ReplacePlaceholder r' = ReplacePlaceholder r \<and>
     ReplacePlaceholderBytes r' =
       (if LogsProcessingRule.Type r = MASK_SEQUENCES then ReplacePlaceholder r
        else ReplacePlaceholderBytes r)"

text \<open>
  An instance of the \<open>Compile\<close> parameter for evaluating the model on concrete inputs. A
  compiled expression is represented by its source. The instance agrees with
  \<^verbatim>\<open>regexp.Compile\<close> on the patterns used below: \<^verbatim>\<open>(\<close> is rejected (missing closing
  parenthesis), \<^verbatim>\<open>DEBUG\<close> and \<^verbatim>\<open>[0-9]+\<close> compile.
\<close>

definition sample_compile :: "string \<Rightarrow> string option" where
  "sample_compile p = (if p = ''('' then None else Some p)"

definition rule_exclude :: "string LogsProcessingRule" where
  "rule_exclude = \<lparr>LogsProcessingRule.Type = ''exclude_at_match'', Name = ''skip_debug'',
     ReplacePlaceholder = [], Pattern = ''DEBUG'', Reg = None, ReplacePlaceholderBytes = []\<rparr>"

definition rule_mask :: "string LogsProcessingRule" where
  "rule_mask = \<lparr>LogsProcessingRule.Type = ''mask_sequences'', Name = ''mask_digits'',
     ReplacePlaceholder = ''[masked]'', Pattern = ''[0-9]+'', Reg = None,
     ReplacePlaceholderBytes = []\<rparr>"

definition rule_bad_pattern :: "string LogsProcessingRule" where
  "rule_bad_pattern = \<lparr>LogsProcessingRule.Type = ''exclude_at_match'', Name = ''broken'',
     ReplacePlaceholder = [], Pattern = ''('', Reg = None, ReplacePlaceholderBytes = []\<rparr>"

definition rule_noname :: "string LogsProcessingRule" where
  "rule_noname = \<lparr>LogsProcessingRule.Type = ''exclude_at_match'', Name = [],
     ReplacePlaceholder = [], Pattern = ''DEBUG'', Reg = None, ReplacePlaceholderBytes = []\<rparr>"

definition rule_notype :: "string LogsProcessingRule" where
  "rule_notype = \<lparr>LogsProcessingRule.Type = [], Name = ''untyped'',
     ReplacePlaceholder = [], Pattern = ''DEBUG'', Reg = None, ReplacePlaceholderBytes = []\<rparr>"

definition source_file :: "string IntegrationConfigLogSource" where
  "source_file = \<lparr>Type = ''file'', Port = 0, Path = ''/var/log/nginx/access.log'',
     Service = ''web'', Logset = ''main'', Source = ''nginx'', SourceCategory = ''webserver'',
     Tags = ''env:prod'', TagsPayload = [], ProcessingRules = [rule_exclude, rule_mask]\<rparr>"

definition source_tcp :: "string IntegrationConfigLogSource" where
  "source_tcp = \<lparr>Type = ''tcp'', Port = - 1, Path = [],
     Service = [], Logset = [], Source = [], SourceCategory = [],
     Tags = [], TagsPayload = [], ProcessingRules = []\<rparr>"

definition source_udp :: "string IntegrationConfigLogSource" where
  "source_udp = \<lparr>Type = ''udp'', Port = 70000, Path = [],
     Service = [], Logset = [], Source = ''syslog'', SourceCategory = [],
     Tags = [], TagsPayload = [], ProcessingRules = []\<rparr>"

definition source_nopath :: "string IntegrationConfigLogSource" where
  "source_nopath = \<lparr>Type = ''file'', Port = 0, Path = [],
     Service = [], Logset = [], Source = [], SourceCategory = [],
     Tags = [], TagsPayload = [], ProcessingRules = []\<rparr>"

definition source_bad_pattern :: "string IntegrationConfigLogSource" where
  "source_bad_pattern = \<lparr>Type = ''tcp'', Port = 10514, Path = [],
     Service = [], Logset = [], Source = [], SourceCategory = [],
     Tags = [], TagsPayload = [], ProcessingRules = [rule_bad_pattern]\<rparr>"

text \<open>
  A directory \<^verbatim>\<open>conf.d\<close> with five entries, of which \<^verbatim>\<open>a.yaml\<close> declares the
  sources \<open>logsA\<close> and \<^verbatim>\<open>b.yaml\<close> the sources \<open>logsB\<close>; every other directory
  cannot be listed. The deprecated config is taken to be \<^verbatim>\<open>datadog\<close>.
\<close>

definition sample_env ::
  "string IntegrationConfigLogSource list \<Rightarrow> string IntegrationConfigLogSource list \<Rightarrow>
   (string, string) env"
where
  "sample_env logsA logsB =
     \<lparr>ReadDir = (\<lambda>dir. if dir = ''conf.d''
         then Inr [''a.yaml'', ''notes.txt'', ''datadog.yaml'', ''b.yaml'', ''c.yaml.bak'']
         else Inl ''no such file or directory''),
      ReadInConfig = (\<lambda>dir name. if dir = ''conf.d'' \<and> (name = ''a'' \<or> name = ''b'')
         then Inr name else Inl ''config file not found''),
      Unmarshal = (\<lambda>raw. if raw = ''a'' then Inr \<lparr>Logs = logsA\<rparr>
         else if raw = ''b'' then Inr \<lparr>Logs = logsB\<rparr> else Inl ''cannot unmarshal''),
      Compile = sample_compile,
      DeprecatedConfig = ''datadog''\<rparr>"

section \<open>Auxiliary facts\<close>

declare validateProcessingRules_from.simps [simp del]

lemmas const_defs = FILE_TYPE_def TCP_TYPE_def UDP_TYPE_def EXCLUDE_AT_MATCH_def
  MASK_SEQUENCES_def LOGS_RULES_def

lemmas load_defs = buildLogsAgentIntegrationsConfig_def availableIntegrationConfigs_def
  Ext_def loadFile_def readIntegrationConfig_def loadSource_def validateSource_def
  validateProcessingRules_def validateProcessingRules_from.simps MustCompile_def
  buildTagsPayload_def

subsection \<open>One iteration of the rule loop\<close>

lemma MASK_neq_EXCLUDE: "MASK_SEQUENCES \<noteq> EXCLUDE_AT_MATCH"
  by (simp add: MASK_SEQUENCES_def EXCLUDE_AT_MATCH_def)

lemma validate_from_done:
  "\<not> i < length rules \<Longrightarrow> validateProcessingRules_from compile i rules = Ok rules"
  by (subst validateProcessingRules_from.simps) simp

lemma validate_from_noname:
  "i < length rules \<Longrightarrow> Name (rules ! i) = [] \<Longrightarrow>
   validateProcessingRules_from compile i rules = Err name_error"
  by (subst validateProcessingRules_from.simps) (simp add: Let_def)

lemma validate_from_exclude:
  "i < length rules \<Longrightarrow> Name (rules ! i) \<noteq> [] \<Longrightarrow>
   LogsProcessingRule.Type (rules ! i) = EXCLUDE_AT_MATCH \<Longrightarrow>
   validateProcessingRules_from compile i rules =
     (case compile (Pattern (rules ! i)) of
        None \<Rightarrow> Panic
      | Some re \<Rightarrow>
          validateProcessingRules_from compile (Suc i) (rules[i := (rules ! i)\<lparr>Reg := Some re\<rparr>]))"
  by (subst validateProcessingRules_from.simps)
     (simp add: Let_def MustCompile_def split: option.split)

lemma validate_from_mask:
  "i < length rules \<Longrightarrow> Name (rules ! i) \<noteq> [] \<Longrightarrow>
   LogsProcessingRule.Type (rules ! i) = MASK_SEQUENCES \<Longrightarrow>
   validateProcessingRules_from compile i rules =
     (case compile (Pattern (rules ! i)) of
        None \<Rightarrow> Panic
      | Some re \<Rightarrow>
          validateProcessingRules_from compile (Suc i)
            (rules[i := (rules ! i)\<lparr>Reg := Some re,
               ReplacePlaceholderBytes := ReplacePlaceholder (rules ! i)\<rparr>]))"
  by (subst validateProcessingRules_from.simps)
     (simp add: Let_def MustCompile_def MASK_neq_EXCLUDE split: option.split)

lemma validate_from_unset:
  "i < length rules \<Longrightarrow> Name (rules ! i) \<noteq> [] \<Longrightarrow>
   LogsProcessingRule.Type (rules ! i) = [] \<Longrightarrow>
   validateProcessingRules_from compile i rules = Err (type_unset_error (Name (rules ! i)))"
  by (subst validateProcessingRules_from.simps)
     (simp add: Let_def EXCLUDE_AT_MATCH_def MASK_SEQUENCES_def)

lemma validate_from_unsupported:
  "i < length rules \<Longrightarrow> Name (rules ! i) \<noteq> [] \<Longrightarrow>
   LogsProcessingRule.Type (rules ! i) \<noteq> [] \<Longrightarrow>
   LogsProcessingRule.Type (rules ! i) \<noteq> EXCLUDE_AT_MATCH \<Longrightarrow>
   LogsProcessingRule.Type (rules ! i) \<noteq> MASK_SEQUENCES \<Longrightarrow>
   validateProcessingRules_from compile i rules =
     Err (type_unsupported_error (LogsProcessingRule.Type (rules ! i)) (Name (rules ! i)))"
  by (subst validateProcessingRules_from.simps) (simp add: Let_def)

lemma validate_from_ok_step:
  assumes "i < length rules" and "rule_ok compile (rules ! i)"
  shows "\<exists>r. validateProcessingRules_from compile i rules =
               validateProcessingRules_from compile (Suc i) (rules[i := r])"
proof -
  from assms(2) obtain re where re: "compile (Pattern (rules ! i)) = Some re"
    and nm: "Name (rules ! i) \<noteq> []"
    and ty: "LogsProcessingRule.Type (rules ! i) = EXCLUDE_AT_MATCH \<or>
             LogsProcessingRule.Type (rules ! i) = MASK_SEQUENCES"
    by (auto simp: rule_ok_def)
  from ty show ?thesis
  proof
    assume "LogsProcessingRule.Type (rules ! i) = EXCLUDE_AT_MATCH"
    then show ?thesis using validate_from_exclude [OF assms(1) nm, of compile] re by auto
  next
    assume "LogsProcessingRule.Type (rules ! i) = MASK_SEQUENCES"
    then show ?thesis using validate_from_mask [OF assms(1) nm, of compile] re by auto
  qed
qed

lemma validate_from_skip:
  "i \<le> k \<Longrightarrow> k \<le> length rules \<Longrightarrow> \<forall>j. i \<le> j \<and> j < k \<longrightarrow> rule_ok compile (rules ! j) \<Longrightarrow>
   \<exists>rules'. length rules' = length rules \<and> (\<forall>j. k \<le> j \<longrightarrow> rules' ! j = rules ! j) \<and>
     validateProcessingRules_from compile i rules = validateProcessingRules_from compile k rules'"
proof (induction "k - i" arbitrary: i rules)
  case 0
  then show ?case by auto
next
  case (Suc n)
  then have lt: "i < k" "i < length rules" and ok: "rule_ok compile (rules ! i)" by auto
  from validate_from_ok_step [OF lt(2) ok] obtain r where
    step: "validateProcessingRules_from compile i rules =
           validateProcessingRules_from compile (Suc i) (rules[i := r])" by blast
  have "\<exists>rules'. length rules' = length (rules[i := r]) \<and>
          (\<forall>j. k \<le> j \<longrightarrow> rules' ! j = rules[i := r] ! j) \<and>
          validateProcessingRules_from compile (Suc i) (rules[i := r]) =
          validateProcessingRules_from compile k rules'"
  proof (rule Suc.hyps(1))
    show "n = k - Suc i" using Suc.hyps(2) by simp
    show "Suc i \<le> k" using lt by simp
    show "k \<le> length (rules[i := r])" using Suc.prems by simp
    show "\<forall>j. Suc i \<le> j \<and> j < k \<longrightarrow> rule_ok compile (rules[i := r] ! j)"
      using Suc.prems by simp
  qed
  then show ?case using step lt by auto
qed

lemma validate_at_first_offender:
  assumes "k < length rules" and "\<forall>j<k. rule_ok compile (rules ! j)"
  shows "\<exists>rules'. k < length rules' \<and> rules' ! k = rules ! k \<and>
     validateProcessingRules compile rules = validateProcessingRules_from compile k rules'"
proof -
  from validate_from_skip [of 0 k rules compile] assms obtain rules' where
    "length rules' = length rules" and "\<forall>j. k \<le> j \<longrightarrow> rules' ! j = rules ! j" and
    "validateProcessingRules_from compile 0 rules = validateProcessingRules_from compile k rules'"
    by auto
  with assms(1) have "k < length rules' \<and> rules' ! k = rules ! k \<and>
     validateProcessingRules compile rules = validateProcessingRules_from compile k rules'"
    by (simp add: validateProcessingRules_def)
  then show ?thesis ..
qed

subsection \<open>The rule loop preserves the declared fields\<close>

lemma validate_from_frame:
  "validateProcessingRules_from compile i rules = Ok rules' \<Longrightarrow>
   length rules' = length rules \<and>
   (\<forall>j<length rules. (j < i \<longrightarrow> rules' ! j = rules ! j) \<and>
      (i \<le> j \<longrightarrow> unchanged_fields (rules ! j) (rules' ! j)))"
proof (induction "length rules - i" arbitrary: i rules)
  case 0
  then have "\<not> i < length rules" by simp
  with 0 show ?case by (simp add: validate_from_done)
next
  case (Suc n)
  then have lt: "i < length rules" by simp
  let ?rule = "rules ! i"
  have nm: "Name ?rule \<noteq> []"
    using Suc.prems validate_from_noname [OF lt, of compile] by auto
  have ty: "LogsProcessingRule.Type ?rule = EXCLUDE_AT_MATCH \<or>
            LogsProcessingRule.Type ?rule = MASK_SEQUENCES"
    using Suc.prems validate_from_unset [OF lt nm, of compile]
      validate_from_unsupported [OF lt nm, of compile] by auto
  have "\<exists>r. unchanged_fields ?rule r \<and>
          validateProcessingRules_from compile (Suc i) (rules[i := r]) = Ok rules'"
    using ty
  proof
    assume t: "LogsProcessingRule.Type ?rule = EXCLUDE_AT_MATCH"
    from Suc.prems validate_from_exclude [OF lt nm t, of compile]
    obtain re where
      "validateProcessingRules_from compile (Suc i) (rules[i := ?rule\<lparr>Reg := Some re\<rparr>]) = Ok rules'"
      by (cases "compile (Pattern ?rule)") auto
    moreover have "unchanged_fields ?rule (?rule\<lparr>Reg := Some re\<rparr>)"
      using t MASK_neq_EXCLUDE by (simp add: unchanged_fields_def)
    ultimately show ?thesis by blast
  next
    assume t: "LogsProcessingRule.Type ?rule = MASK_SEQUENCES"
    from Suc.prems validate_from_mask [OF lt nm t, of compile]
    obtain re where
      "validateProcessingRules_from compile (Suc i)
         (rules[i := ?rule\<lparr>Reg := Some re,
            ReplacePlaceholderBytes := ReplacePlaceholder ?rule\<rparr>]) = Ok rules'"
      by (cases "compile (Pattern ?rule)") auto
    moreover have "unchanged_fields ?rule
       (?rule\<lparr>Reg := Some re, ReplacePlaceholderBytes := ReplacePlaceholder ?rule\<rparr>)"
      using t by (simp add: unchanged_fields_def)
    ultimately show ?thesis by blast
  qed
  then obtain r where r: "unchanged_fields ?rule r"
    and rest: "validateProcessingRules_from compile (Suc i) (rules[i := r]) = Ok rules'"
    by blast
  have n: "n = length (rules[i := r]) - Suc i" using Suc.hyps(2) by simp
  from Suc.hyps(1) [OF n rest]
  have len: "length rules' = length rules"
    and ih: "\<forall>j<length rules. (j < Suc i \<longrightarrow> rules' ! j = rules[i := r] ! j) \<and>
      (Suc i \<le> j \<longrightarrow> unchanged_fields (rules[i := r] ! j) (rules' ! j))"
    by simp_all
  have "(j < i \<longrightarrow> rules' ! j = rules ! j) \<and>
        (i \<le> j \<longrightarrow> unchanged_fields (rules ! j) (rules' ! j))" if j: "j < length rules" for j
  proof (cases "j = i")
    case True
    then show ?thesis using ih j r lt by simp
  next
    case False
    then show ?thesis using ih j by (cases "j < i") auto
  qed
  with len show ?case by simp
qed

subsection \<open>Extensions and the discovery loop\<close>

lemma Ext_from_suffix:
  "n \<le> length path \<Longrightarrow> suffix (Ext_from n path) path"
  by (induction n) (auto simp: suffix_drop)

lemma Ext_append_yaml: "Ext (name @ ''.yaml'') = ''.yaml''"
  by (simp add: Ext_def nth_append)

lemma Ext_yaml_iff: "Ext f = ''.yaml'' \<longleftrightarrow> suffix ''.yaml'' f"
proof
  assume "Ext f = ''.yaml''"
  then show "suffix ''.yaml'' f"
    using Ext_from_suffix [of "length f" f] by (simp add: Ext_def)
next
  assume "suffix ''.yaml'' f"
  then show "Ext f = ''.yaml''" by (auto simp: suffix_def Ext_append_yaml)
qed

lemma availableIntegrationConfigs_loop_step:
  "availableIntegrationConfigs_loop deprecated acc (f # files) =
     availableIntegrationConfigs_loop deprecated
       (if suffix ''.yaml'' f \<and> take (length f - length ''.yaml'') f \<noteq> deprecated
        then acc @ [take (length f - length ''.yaml'') f] else acc) files"
proof (cases "Ext f = ''.yaml''")
  case True
  then show ?thesis using Ext_yaml_iff [of f] by (simp add: Let_def)
next
  case False
  then show ?thesis using Ext_yaml_iff [of f] by (simp add: Let_def)
qed

lemma availableIntegrationConfigs_loop_eq:
  "availableIntegrationConfigs_loop deprecated acc files =
     acc @ map (\<lambda>f. take (length f - length ''.yaml'') f)
       (filter (\<lambda>f. suffix ''.yaml'' f \<and> take (length f - length ''.yaml'') f \<noteq> deprecated) files)"
proof (induction files arbitrary: acc)
  case Nil
  then show ?case by simp
next
  case (Cons f files)
  show ?case unfolding availableIntegrationConfigs_loop_step Cons.IH by simp
qed

lemma take_yaml: "suffix ''.yaml'' f \<Longrightarrow> take (length f - length ''.yaml'') f @ ''.yaml'' = f"
  by (auto simp: suffix_def)

subsection \<open>The loading loops\<close>

lemma loadSource_Err_iff:
  "loadSource compile s = Err e \<longleftrightarrow>
     validateSource s = Some e \<or>
     (validateSource s = None \<and> validateProcessingRules compile (ProcessingRules s) = Err e)"
  by (auto simp: loadSource_def split: option.splits res.splits)

lemma loadSource_Ok_fields:
  "loadSource compile s = Ok s' \<Longrightarrow>
   s'\<lparr>ProcessingRules := ProcessingRules s, TagsPayload := TagsPayload s\<rparr> = s"
  by (auto simp: loadSource_def split: option.splits res.splits)

lemma loadSources_append:
  "loadSources compile acc (xs @ ys) =
     (case loadSources compile acc xs of
        Ok acc' \<Rightarrow> loadSources compile acc' ys
      | Err e \<Rightarrow> Err e
      | Panic \<Rightarrow> Panic)"
  by (induction xs arbitrary: acc) (auto split: res.splits)

lemma loadSources_Err_first:
  "loadSources compile acc srcs = Err e \<Longrightarrow>
   \<exists>spre s spost acc'. srcs = spre @ s # spost \<and>
     loadSources compile acc spre = Ok acc' \<and> loadSource compile s = Err e"
proof (induction srcs arbitrary: acc)
  case Nil
  then show ?case by simp
next
  case (Cons x xs)
  show ?case
  proof (cases "loadSource compile x")
    case (Ok x')
    with Cons.prems have "loadSources compile (acc @ [x']) xs = Err e" by simp
    from Cons.IH [OF this] obtain spre s spost acc' where
      "xs = spre @ s # spost" "loadSources compile (acc @ [x']) spre = Ok acc'"
      "loadSource compile s = Err e" by blast
    then have "x # xs = (x # spre) @ s # spost \<and>
      loadSources compile acc (x # spre) = Ok acc' \<and> loadSource compile s = Err e"
      using Ok by simp
    then show ?thesis by blast
  next
    case (Err e')
    with Cons.prems have "x # xs = [] @ x # xs \<and> loadSources compile acc [] = Ok acc \<and>
      loadSource compile x = Err e" by simp
    then show ?thesis by blast
  next
    case Panic
    with Cons.prems show ?thesis by simp
  qed
qed

lemma loadSources_Err_iff:
  "loadSources compile acc srcs = Err e \<longleftrightarrow>
   (\<exists>spre s spost acc'. srcs = spre @ s # spost \<and>
     loadSources compile acc spre = Ok acc' \<and> loadSource compile s = Err e)"
  using loadSources_Err_first [of compile acc srcs e]
  by (auto simp: loadSources_append)

lemma loadSources_Ok:
  "loadSources compile acc srcs = Ok out \<Longrightarrow>
   \<exists>new. out = acc @ new \<and> list_all2 (\<lambda>s s'. loadSource compile s = Ok s') srcs new"
proof (induction srcs arbitrary: acc)
  case Nil
  then show ?case by simp
next
  case (Cons x xs)
  then obtain x' where x': "loadSource compile x = Ok x'"
    and rest: "loadSources compile (acc @ [x']) xs = Ok out"
    by (auto split: res.splits)
  from Cons.IH [OF rest] obtain new where
    "out = (acc @ [x']) @ new" "list_all2 (\<lambda>s s'. loadSource compile s = Ok s') xs new"
    by blast
  then have "out = acc @ (x' # new) \<and>
    list_all2 (\<lambda>s s'. loadSource compile s = Ok s') (x # xs) (x' # new)"
    using x' by simp
  then show ?case by blast
qed

lemma loadFile_Err_iff:
  "loadFile env ddconfdPath acc file = Err e \<longleftrightarrow>
     readIntegrationConfig env ddconfdPath file = Inl e \<or>
     (\<exists>cfg. readIntegrationConfig env ddconfdPath file = Inr cfg \<and>
        loadSources (Compile env) acc (Logs cfg) = Err e)"
  by (auto simp: loadFile_def split: sum.splits)

lemma loadFiles_append:
  "loadFiles env ddconfdPath acc (xs @ ys) =
     (case loadFiles env ddconfdPath acc xs of
        Ok acc' \<Rightarrow> loadFiles env ddconfdPath acc' ys
      | Err e \<Rightarrow> Err e
      | Panic \<Rightarrow> Panic)"
  by (induction xs arbitrary: acc) (auto split: res.splits)

lemma loadFiles_Err_first:
  "loadFiles env ddconfdPath acc files = Err e \<Longrightarrow>
   \<exists>pre file post acc'. files = pre @ file # post \<and>
     loadFiles env ddconfdPath acc pre = Ok acc' \<and> loadFile env ddconfdPath acc' file = Err e"
proof (induction files arbitrary: acc)
  case Nil
  then show ?case by simp
next
  case (Cons x xs)
  show ?case
  proof (cases "loadFile env ddconfdPath acc x")
    case (Ok acc1)
    with Cons.prems have "loadFiles env ddconfdPath acc1 xs = Err e" by simp
    from Cons.IH [OF this] obtain pre f post acc' where
      "xs = pre @ f # post" "loadFiles env ddconfdPath acc1 pre = Ok acc'"
      "loadFile env ddconfdPath acc' f = Err e" by blast
    then have "x # xs = (x # pre) @ f # post \<and>
      loadFiles env ddconfdPath acc (x # pre) = Ok acc' \<and>
      loadFile env ddconfdPath acc' f = Err e"
      using Ok by simp
    then show ?thesis by blast
  next
    case (Err e')
    with Cons.prems have "x # xs = [] @ x # xs \<and> loadFiles env ddconfdPath acc [] = Ok acc \<and>
      loadFile env ddconfdPath acc x = Err e" by simp
    then show ?thesis by blast
  next
    case Panic
    with Cons.prems show ?thesis by simp
  qed
qed

lemma loadFiles_Err_iff:
  "loadFiles env ddconfdPath acc files = Err e \<longleftrightarrow>
   (\<exists>pre file post acc'. files = pre @ file # post \<and>
     loadFiles env ddconfdPath acc pre = Ok acc' \<and> loadFile env ddconfdPath acc' file = Err e)"
  using loadFiles_Err_first [of env ddconfdPath acc files e]
  by (auto simp: loadFiles_append)

lemma loadFiles_Ok:
  "loadFiles env ddconfdPath acc files = Ok out \<Longrightarrow>
   \<exists>cfgs new.
     list_all2 (\<lambda>file cfg. readIntegrationConfig env ddconfdPath file = Inr cfg) files cfgs \<and>
     list_all2 (\<lambda>s s'. loadSource (Compile env) s = Ok s') (concat (map Logs cfgs)) new \<and>
     out = acc @ new"
proof (induction files arbitrary: acc)
  case Nil
  then show ?case by simp
next
  case (Cons x xs)
  then obtain acc1 where x: "loadFile env ddconfdPath acc x = Ok acc1"
    and rest: "loadFiles env ddconfdPath acc1 xs = Ok out"
    by (auto split: res.splits)
  from x obtain cfg where cfg: "readIntegrationConfig env ddconfdPath x = Inr cfg"
    and srcs: "loadSources (Compile env) acc (Logs cfg) = Ok acc1"
    by (auto simp: loadFile_def split: sum.splits)
  from loadSources_Ok [OF srcs] obtain new1 where
    new1: "acc1 = acc @ new1"
      "list_all2 (\<lambda>s s'. loadSource (Compile env) s = Ok s') (Logs cfg) new1" by blast
  from Cons.IH [OF rest] obtain cfgs new where
    ih: "list_all2 (\<lambda>file cfg. readIntegrationConfig env ddconfdPath file = Inr cfg) xs cfgs"
      "list_all2 (\<lambda>s s'. loadSource (Compile env) s = Ok s') (concat (map Logs cfgs)) new"
      "out = acc1 @ new" by blast
  have "list_all2 (\<lambda>file cfg. readIntegrationConfig env ddconfdPath file = Inr cfg)
          (x # xs) (cfg # cfgs) \<and>
        list_all2 (\<lambda>s s'. loadSource (Compile env) s = Ok s')
          (concat (map Logs (cfg # cfgs))) (new1 @ new) \<and>
        out = acc @ (new1 @ new)"
    using cfg new1 ih by (simp add: list_all2_appendI)
  then show ?case by blast
qed

subsection \<open>Evaluation on the concrete inputs\<close>

lemma sample_rules_compiled:
  "validateProcessingRules sample_compile [rule_exclude, rule_mask] =
     Ok [rule_exclude\<lparr>Reg := Some ''DEBUG''\<rparr>,
         rule_mask\<lparr>Reg := Some ''[0-9]+'', ReplacePlaceholderBytes := ''[masked]''\<rparr>]"
  by (simp add: load_defs const_defs rule_exclude_def rule_mask_def sample_compile_def)

lemma sample_discovery:
  "availableIntegrationConfigs (sample_env logsA logsB) ''conf.d'' = [''a'', ''b'']"
  by (simp add: availableIntegrationConfigs_def sample_env_def Ext_def)

lemma sample_load_ok:
  "buildLogsAgentIntegrationsConfig (sample_env [source_file, source_tcp] [source_udp])
     Map.empty ''conf.d'' =
   (Ok (),
    [LOGS_RULES \<mapsto>
      [source_file\<lparr>
         ProcessingRules :=
           [rule_exclude\<lparr>Reg := Some ''DEBUG''\<rparr>,
            rule_mask\<lparr>Reg := Some ''[0-9]+'', ReplacePlaceholderBytes := ''[masked]''\<rparr>],
         TagsPayload :=
           ''[dd ddsource=\"nginx\"][dd ddsourcecategory=\"webserver\"][dd ddtags=\"env:prod\"]''\<rparr>,
       source_tcp\<lparr>TagsPayload := ''-''\<rparr>,
       source_udp\<lparr>TagsPayload := ''[dd ddsource=\"syslog\"]''\<rparr>]])"
  by (simp add: load_defs const_defs source_file_def source_tcp_def source_udp_def
      rule_exclude_def rule_mask_def sample_env_def sample_compile_def)

lemma sample_load_error:
  "buildLogsAgentIntegrationsConfig (sample_env [source_file, source_nopath, source_tcp] [source_udp])
     [LOGS_RULES \<mapsto> [source_udp]] ''conf.d'' =
   (Err ''A file source must have a path'', [LOGS_RULES \<mapsto> [source_udp]])"
  by (simp add: load_defs const_defs source_file_def source_nopath_def source_tcp_def
      source_udp_def rule_exclude_def rule_mask_def sample_env_def sample_compile_def)

lemma sample_load_panic:
  "buildLogsAgentIntegrationsConfig (sample_env [source_bad_pattern] []) Map.empty ''conf.d'' =
   (Panic, Map.empty)"
  by (simp add: load_defs const_defs source_bad_pattern_def rule_bad_pattern_def
      sample_env_def sample_compile_def)

section \<open>Properties\<close>

subsection \<open>The tags payload\<close>

text \<open>
  C1. For all strings \<open>tags\<close>, \<open>source\<close> and \<open>sourceCategory\<close>, \<open>buildTagsPayload\<close> returns
  the concatenation, in this order, of the source annotation if \<open>source\<close> is not empty, the
  source-category annotation if \<open>sourceCategory\<close> is not empty, and the tags annotation if
  \<open>tags\<close> is not empty; when all three are empty it returns the single byte \<open>-\<close>.
\<close>

theorem buildTagsPayload_spec:
  "buildTagsPayload tags source sourceCategory =
     (if source = [] \<and> sourceCategory = [] \<and> tags = [] then [CHR ''-'']
      else (if source \<noteq> [] then ''[dd ddsource=\"'' @ source @ ''\"]'' else []) @
           (if sourceCategory \<noteq> [] then ''[dd ddsourcecategory=\"'' @ sourceCategory @ ''\"]''
            else []) @
           (if tags \<noteq> [] then ''[dd ddtags=\"'' @ tags @ ''\"]'' else []))"
  by (simp add: buildTagsPayload_def)

theorem buildTagsPayload_spec_witness:
  "buildTagsPayload ''env:prod'' ''nginx'' ''webserver'' =
     ''[dd ddsource=\"nginx\"][dd ddsourcecategory=\"webserver\"][dd ddtags=\"env:prod\"]'' \<and>
   buildTagsPayload [] [] [] = ''-''"
  using buildTagsPayload_spec [of "''env:prod''" "''nginx''" "''webserver''"]
    buildTagsPayload_spec [of "[]" "[]" "[]"]
  by simp

subsection \<open>Validation of a log source\<close>

text \<open>
  C3. For every log source, \<open>validateSource\<close> returns an error if and only if the type of
  the source is not one of file, tcp and udp, or the type is file and the path is empty, or
  the type is tcp or udp and the port is 0; otherwise it returns no error.
\<close>

theorem validateSource_error_iff:
  "(validateSource config \<noteq> None) =
     (Type config \<notin> {FILE_TYPE, TCP_TYPE, UDP_TYPE} \<or>
      (Type config = FILE_TYPE \<and> Path config = []) \<or>
      ((Type config = TCP_TYPE \<or> Type config = UDP_TYPE) \<and> Port config = 0))"
  by (auto simp add: validateSource_def FILE_TYPE_def TCP_TYPE_def UDP_TYPE_def)

theorem validateSource_error_iff_witness:
  "validateSource source_nopath \<noteq> None \<and> validateSource source_file = None"
  using validateSource_error_iff [of source_nopath] validateSource_error_iff [of source_file]
  by (simp add: source_nopath_def source_file_def const_defs)



subsection \<open>Validation of the processing rules\<close>

text \<open>
  C2. A processing rule of type exclude_at_match or mask_sequences whose pattern is not a
  valid regular expression is to make \<open>validateProcessingRules\<close>, and with it the load
  operation, return an error. The code compiles the pattern with \<^verbatim>\<open>regexp.MustCompile\<close>:
  when the rule is reached and its pattern does not compile, the function panics, and no
  error is returned.
\<close>

theorem validateProcessingRules_invalid_pattern_panics:
  assumes "k < length rules" and "\<forall>j<k. rule_ok compile (rules ! j)"
    and "Name (rules ! k) \<noteq> []"
    and "LogsProcessingRule.Type (rules ! k) = EXCLUDE_AT_MATCH \<or>
         LogsProcessingRule.Type (rules ! k) = MASK_SEQUENCES"
    and "compile (Pattern (rules ! k)) = None"
  shows "validateProcessingRules compile rules = Panic"
proof -
  from validate_at_first_offender [OF assms(1,2)] obtain rules' where
    len: "k < length rules'" and same: "rules' ! k = rules ! k" and
    eq: "validateProcessingRules compile rules = validateProcessingRules_from compile k rules'"
    by blast
  from assms(4) show ?thesis
  proof
    assume "LogsProcessingRule.Type (rules ! k) = EXCLUDE_AT_MATCH"
    then show ?thesis
      using validate_from_exclude [OF len, of compile] same eq assms(3,5) by simp
  next
    assume "LogsProcessingRule.Type (rules ! k) = MASK_SEQUENCES"
    then show ?thesis
      using validate_from_mask [OF len, of compile] same eq assms(3,5) by simp
  qed
qed

theorem validateProcessingRules_invalid_pattern_panics_witness:
  "sample_compile (Pattern rule_bad_pattern) = None \<and>
   validateProcessingRules sample_compile [rule_bad_pattern] = Panic \<and>
   fst (buildLogsAgentIntegrationsConfig (sample_env [source_bad_pattern] []) Map.empty
     ''conf.d'') = Panic"
  using validateProcessingRules_invalid_pattern_panics [of 0 "[rule_bad_pattern]" sample_compile]
    sample_load_panic
  by (simp add: rule_bad_pattern_def sample_compile_def const_defs)

text \<open>
  C6. For every sequence of processing rules, \<open>validateProcessingRules\<close> is to return an
  error for the first rule whose name is empty, whatever its type, and for the first rule
  whose type is neither exclude_at_match nor mask_sequences. In the sequence below the
  rule with the empty name comes after a rule whose pattern does not compile: the function
  panics at the earlier rule and returns no error.
\<close>

theorem validateProcessingRules_panics_before_empty_name:
  "validateProcessingRules sample_compile [rule_bad_pattern, rule_noname] = Panic"
  by (simp add: validateProcessingRules_def validateProcessingRules_from.simps MustCompile_def
      const_defs rule_bad_pattern_def rule_noname_def sample_compile_def)

text \<open>
  When every rule before the first one with an empty name or an unsupported type is valid,
  the error is returned: the name is checked before the type, and the message for an empty
  type differs from the message for any other unsupported type.
\<close>

lemma validateProcessingRules_first_invalid:
  assumes "k < length rules" and "\<forall>j<k. rule_ok compile (rules ! j)"
  shows "(Name (rules ! k) = [] \<longrightarrow> validateProcessingRules compile rules = Err name_error) \<and>
    (Name (rules ! k) \<noteq> [] \<and> LogsProcessingRule.Type (rules ! k) = [] \<longrightarrow>
       validateProcessingRules compile rules = Err (type_unset_error (Name (rules ! k)))) \<and>
    (Name (rules ! k) \<noteq> [] \<and> LogsProcessingRule.Type (rules ! k) \<noteq> [] \<and>
     LogsProcessingRule.Type (rules ! k) \<noteq> EXCLUDE_AT_MATCH \<and>
     LogsProcessingRule.Type (rules ! k) \<noteq> MASK_SEQUENCES \<longrightarrow>
       validateProcessingRules compile rules =
         Err (type_unsupported_error (LogsProcessingRule.Type (rules ! k)) (Name (rules ! k)))) \<and>
    type_unset_error (Name (rules ! k)) \<noteq> type_unsupported_error ty (Name (rules ! k))"
proof -
  from validate_at_first_offender [OF assms] obtain rules' where
    len: "k < length rules'" and same: "rules' ! k = rules ! k" and
    eq: "validateProcessingRules compile rules = validateProcessingRules_from compile k rules'"
    by blast
  have "length (type_unset_error n) < length (type_unsupported_error ty n)" for n
    by (simp add: type_unset_error_def type_unsupported_error_def)
  then have "type_unset_error (Name (rules ! k)) \<noteq> type_unsupported_error ty (Name (rules ! k))"
    by (metis less_irrefl)
  then show ?thesis
    using validate_from_noname [OF len, of compile] validate_from_unset [OF len, of compile]
      validate_from_unsupported [OF len, of compile] same eq
    by simp
qed

lemma validateProcessingRules_first_invalid_examples:
  "validateProcessingRules sample_compile [rule_exclude, rule_noname, rule_notype] =
     Err ''LogsAgent misconfigured: all log processing rules need a name'' \<and>
   validateProcessingRules sample_compile [rule_exclude, rule_notype, rule_noname] =
     Err ''LogsAgent misconfigured: type must be set for log processing rule `untyped`''"
  by (simp add: load_defs const_defs name_error_def type_unset_error_def
      rule_exclude_def rule_noname_def rule_notype_def sample_compile_def)

text \<open>
  C10. For every rule sequence on which \<open>validateProcessingRules\<close> succeeds, the returned
  sequence has the length and the order of the input, and the type, name, pattern and
  replace placeholder of every rule are unchanged; the placeholder bytes are assigned for
  the rules of type mask_sequences only, and keep their value for every other rule.
\<close>

theorem validateProcessingRules_frame:
  assumes "validateProcessingRules compile rules = Ok rules'"
  shows "length rules' = length rules \<and>
    (\<forall>i<length rules.
       LogsProcessingRule.Type (rules' ! i) = LogsProcessingRule.Type (rules ! i) \<and>
       Name (rules' ! i) = Name (rules ! i) \<and>
       Pattern (rules' ! i) = Pattern (rules ! i) \<and>
       ReplacePlaceholder (rules' ! i) = ReplacePlaceholder (rules ! i) \<and>
       (LogsProcessingRule.Type (rules ! i) = MASK_SEQUENCES \<longrightarrow>
          ReplacePlaceholderBytes (rules' ! i) = ReplacePlaceholder (rules ! i)) \<and>
       (LogsProcessingRule.Type (rules ! i) \<noteq> MASK_SEQUENCES \<longrightarrow>
          ReplacePlaceholderBytes (rules' ! i) = ReplacePlaceholderBytes (rules ! i)))"
  using validate_from_frame [of compile 0 rules rules'] assms
  by (simp add: validateProcessingRules_def unchanged_fields_def)

theorem validateProcessingRules_frame_witness:
  "(\<exists>rules'. validateProcessingRules sample_compile [rule_exclude, rule_mask] = Ok rules' \<and>
      length rules' = 2 \<and>
      map Name rules' = [''skip_debug'', ''mask_digits''] \<and>
      map Pattern rules' = [''DEBUG'', ''[0-9]+''] \<and>
      map ReplacePlaceholderBytes rules' = [[], ''[masked]''])"
  using validateProcessingRules_frame [OF sample_rules_compiled] sample_rules_compiled
  by (simp add: rule_exclude_def rule_mask_def)

subsection \<open>Discovery of the config files\<close>

text \<open>
  C7. For every directory listing, \<open>availableIntegrationConfigs\<close> returns, in listing
  order, the names without their extension of the entries that end in \<^verbatim>\<open>.yaml\<close> and
  whose name without the extension is not the deprecated config. It never returns the
  deprecated config, and every name it returns comes from a \<^verbatim>\<open>.yaml\<close> entry.
\<close>

theorem availableIntegrationConfigs_spec:
  assumes "ReadDir env ddconfdPath = Inr files"
  shows "availableIntegrationConfigs env ddconfdPath =
      map (\<lambda>f. take (length f - length ''.yaml'') f)
        (filter (\<lambda>f. suffix ''.yaml'' f \<and>
           take (length f - length ''.yaml'') f \<noteq> DeprecatedConfig env) files) \<and>
    DeprecatedConfig env \<notin> set (availableIntegrationConfigs env ddconfdPath) \<and>
    (\<forall>name \<in> set (availableIntegrationConfigs env ddconfdPath). name @ ''.yaml'' \<in> set files)"
proof -
  have eq: "availableIntegrationConfigs env ddconfdPath =
      map (\<lambda>f. take (length f - length ''.yaml'') f)
        (filter (\<lambda>f. suffix ''.yaml'' f \<and>
           take (length f - length ''.yaml'') f \<noteq> DeprecatedConfig env) files)"
    using assms
    by (simp add: availableIntegrationConfigs_def availableIntegrationConfigs_loop_eq
        del: list.size)
  have "DeprecatedConfig env \<notin> set (availableIntegrationConfigs env ddconfdPath)"
    unfolding eq by auto
  moreover have "\<forall>name \<in> set (availableIntegrationConfigs env ddconfdPath).
      name @ ''.yaml'' \<in> set files"
    unfolding eq using take_yaml by auto
  ultimately show ?thesis using eq by simp
qed

theorem availableIntegrationConfigs_spec_witness:
  "ReadDir (sample_env [] []) ''conf.d'' =
     Inr [''a.yaml'', ''notes.txt'', ''datadog.yaml'', ''b.yaml'', ''c.yaml.bak''] \<and>
   availableIntegrationConfigs (sample_env [] []) ''conf.d'' = [''a'', ''b'']"
proof -
  have listing: "ReadDir (sample_env [] []) ''conf.d'' =
     Inr [''a.yaml'', ''notes.txt'', ''datadog.yaml'', ''b.yaml'', ''c.yaml.bak'']"
    by (simp add: sample_env_def)
  from availableIntegrationConfigs_spec [OF listing]
  have "DeprecatedConfig (sample_env [] []) \<notin>
      set (availableIntegrationConfigs (sample_env [] []) ''conf.d'')"
    by (rule conjunct1 [OF conjunct2])
  with listing sample_discovery [of "[]" "[]"] show ?thesis by simp
qed

text \<open>
  C8. When listing the directory fails, discovery returns the empty sequence and reports
  no error, and the load operation succeeds and stores the empty list of sources.
\<close>

theorem listing_failure_swallowed:
  assumes "ReadDir env ddconfdPath = Inl err"
  shows "availableIntegrationConfigs env ddconfdPath = [] \<and>
    buildLogsAgentIntegrationsConfig env config ddconfdPath =
      (Ok (), config(LOGS_RULES \<mapsto> []))"
  using assms by (simp add: availableIntegrationConfigs_def buildLogsAgentIntegrationsConfig_def)

theorem listing_failure_swallowed_witness:
  "ReadDir (sample_env [source_file] []) ''missing'' = Inl ''no such file or directory'' \<and>
   availableIntegrationConfigs (sample_env [source_file] []) ''missing'' = [] \<and>
   buildLogsAgentIntegrationsConfig (sample_env [source_file] []) Map.empty ''missing'' =
     (Ok (), [LOGS_RULES \<mapsto> []])"
proof -
  have listing: "ReadDir (sample_env [source_file] []) ''missing'' =
      Inl ''no such file or directory''"
    by (simp add: sample_env_def)
  from listing_failure_swallowed [OF listing, of Map.empty] listing show ?thesis by simp
qed

subsection \<open>The load operation\<close>

text \<open>
  C4. The load operation returns an error exactly when some discovered file fails after
  all files before it have been loaded: the file cannot be read, or all sources before
  one of its sources have been loaded and that source fails its validation or the
  validation of its rules. The error returned is that of this first failure, whatever
  follows it, and the settings store is left as it was.
\<close>

theorem buildLogsAgentIntegrationsConfig_error:
  "(fst (buildLogsAgentIntegrationsConfig env config ddconfdPath) = Err e \<longrightarrow>
      snd (buildLogsAgentIntegrationsConfig env config ddconfdPath) = config) \<and>
   (fst (buildLogsAgentIntegrationsConfig env config ddconfdPath) = Err e \<longleftrightarrow>
      (\<exists>pre file post acc.
         availableIntegrationConfigs env ddconfdPath = pre @ file # post \<and>
         loadFiles env ddconfdPath [] pre = Ok acc \<and>
         (readIntegrationConfig env ddconfdPath file = Inl e \<or>
          (\<exists>cfg spre s spost acc'.
             readIntegrationConfig env ddconfdPath file = Inr cfg \<and>
             Logs cfg = spre @ s # spost \<and>
             loadSources (Compile env) acc spre = Ok acc' \<and>
             (validateSource s = Some e \<or>
              (validateSource s = None \<and>
               validateProcessingRules (Compile env) (ProcessingRules s) = Err e))))))"
proof -
  let ?b = "buildLogsAgentIntegrationsConfig env config ddconfdPath"
  let ?files = "availableIntegrationConfigs env ddconfdPath"
  have fst_b: "fst ?b = Err e \<longleftrightarrow> loadFiles env ddconfdPath [] ?files = Err e"
    by (simp add: buildLogsAgentIntegrationsConfig_def split: res.splits)
  have "fst ?b = Err e \<longrightarrow> snd ?b = config"
    by (simp add: buildLogsAgentIntegrationsConfig_def split: res.splits)
  moreover have "fst ?b = Err e \<longleftrightarrow>
      (\<exists>pre file post acc.
         ?files = pre @ file # post \<and>
         loadFiles env ddconfdPath [] pre = Ok acc \<and>
         (readIntegrationConfig env ddconfdPath file = Inl e \<or>
          (\<exists>cfg spre s spost acc'.
             readIntegrationConfig env ddconfdPath file = Inr cfg \<and>
             Logs cfg = spre @ s # spost \<and>
             loadSources (Compile env) acc spre = Ok acc' \<and>
             (validateSource s = Some e \<or>
              (validateSource s = None \<and>
               validateProcessingRules (Compile env) (ProcessingRules s) = Err e)))))"
    unfolding fst_b loadFiles_Err_iff loadFile_Err_iff loadSources_Err_iff loadSource_Err_iff
    by blast
  ultimately show ?thesis by blast
qed

theorem buildLogsAgentIntegrationsConfig_error_witness:
  "fst (buildLogsAgentIntegrationsConfig
          (sample_env [source_file, source_nopath, source_tcp] [source_udp])
          [LOGS_RULES \<mapsto> [source_udp]] ''conf.d'') = Err ''A file source must have a path'' \<and>
   snd (buildLogsAgentIntegrationsConfig
          (sample_env [source_file, source_nopath, source_tcp] [source_udp])
          [LOGS_RULES \<mapsto> [source_udp]] ''conf.d'') = [LOGS_RULES \<mapsto> [source_udp]]"
proof -
  have failed: "fst (buildLogsAgentIntegrationsConfig
          (sample_env [source_file, source_nopath, source_tcp] [source_udp])
          [LOGS_RULES \<mapsto> [source_udp]] ''conf.d'') = Err ''A file source must have a path''"
    by (simp add: sample_load_error)
  from buildLogsAgentIntegrationsConfig_error
    [of "sample_env [source_file, source_nopath, source_tcp] [source_udp]"
        "[LOGS_RULES \<mapsto> [source_udp]]" "''conf.d''" "''A file source must have a path''"]
  have "snd (buildLogsAgentIntegrationsConfig
          (sample_env [source_file, source_nopath, source_tcp] [source_udp])
          [LOGS_RULES \<mapsto> [source_udp]] ''conf.d'') = [LOGS_RULES \<mapsto> [source_udp]]"
    using failed by blast
  with failed show ?thesis by simp
qed

text \<open>
  C5. On a successful load, the sequence stored in the settings store consists of the log
  sources of every discovered file, in the order of discovery of the files and, within a
  file, in the order of declaration: each stored source is the result of loading the
  declared source at the same position, and differs from it in its processing rules and
  its tags payload only.
\<close>

theorem buildLogsAgentIntegrationsConfig_order:
  assumes "fst (buildLogsAgentIntegrationsConfig env config ddconfdPath) = Ok ()"
  shows "\<exists>cfgs stored.
     list_all2 (\<lambda>file cfg. readIntegrationConfig env ddconfdPath file = Inr cfg)
       (availableIntegrationConfigs env ddconfdPath) cfgs \<and>
     list_all2 (\<lambda>s s'. loadSource (Compile env) s = Ok s' \<and>
         s'\<lparr>ProcessingRules := ProcessingRules s, TagsPayload := TagsPayload s\<rparr> = s)
       (concat (map Logs cfgs)) stored \<and>
     snd (buildLogsAgentIntegrationsConfig env config ddconfdPath) =
       config(LOGS_RULES \<mapsto> stored)"
proof -
  from assms obtain out where
    out: "loadFiles env ddconfdPath [] (availableIntegrationConfigs env ddconfdPath) = Ok out"
    by (auto simp: buildLogsAgentIntegrationsConfig_def split: res.splits)
  from loadFiles_Ok [OF out] obtain cfgs where
    cfgs: "list_all2 (\<lambda>file cfg. readIntegrationConfig env ddconfdPath file = Inr cfg)
       (availableIntegrationConfigs env ddconfdPath) cfgs"
    and srcs: "list_all2 (\<lambda>s s'. loadSource (Compile env) s = Ok s')
       (concat (map Logs cfgs)) out"
    by auto
  from srcs have "list_all2 (\<lambda>s s'. loadSource (Compile env) s = Ok s' \<and>
         s'\<lparr>ProcessingRules := ProcessingRules s, TagsPayload := TagsPayload s\<rparr> = s)
       (concat (map Logs cfgs)) out"
    by (rule list_all2_mono) (simp add: loadSource_Ok_fields)
  moreover have "snd (buildLogsAgentIntegrationsConfig env config ddconfdPath) =
       config(LOGS_RULES \<mapsto> out)"
    using out by (simp add: buildLogsAgentIntegrationsConfig_def)
  ultimately show ?thesis using cfgs by blast
qed

theorem buildLogsAgentIntegrationsConfig_order_witness:
  "fst (buildLogsAgentIntegrationsConfig (sample_env [source_file, source_tcp] [source_udp])
          Map.empty ''conf.d'') = Ok () \<and>
   snd (buildLogsAgentIntegrationsConfig (sample_env [source_file, source_tcp] [source_udp])
          Map.empty ''conf.d'') =
     [LOGS_RULES \<mapsto>
       [source_file\<lparr>
          ProcessingRules :=
            [rule_exclude\<lparr>Reg := Some ''DEBUG''\<rparr>,
             rule_mask\<lparr>Reg := Some ''[0-9]+'', ReplacePlaceholderBytes := ''[masked]''\<rparr>],
          TagsPayload :=
            ''[dd ddsource=\"nginx\"][dd ddsourcecategory=\"webserver\"][dd ddtags=\"env:prod\"]''\<rparr>,
        source_tcp\<lparr>TagsPayload := ''-''\<rparr>,
        source_udp\<lparr>TagsPayload := ''[dd ddsource=\"syslog\"]''\<rparr>]]"
proof -
  have loaded: "fst (buildLogsAgentIntegrationsConfig
      (sample_env [source_file, source_tcp] [source_udp]) Map.empty ''conf.d'') = Ok ()"
    by (simp add: sample_load_ok)
  from buildLogsAgentIntegrationsConfig_order [OF loaded]
  have "\<exists>stored. snd (buildLogsAgentIntegrationsConfig
      (sample_env [source_file, source_tcp] [source_udp]) Map.empty ''conf.d'') =
      [LOGS_RULES \<mapsto> stored]"
    by blast
  with loaded show ?thesis by (simp add: sample_load_ok)
qed

end
